theory Spec2Isabelle
  imports Complex_Main "HOL-Library.AList" "HOL-Library.Sublist" "HOL-Library.Multiset"
begin

section \<open>Python strings\<close>

text \<open>
  A Python \<open>str\<close> is modelled as a \<open>string\<close>. The case and whitespace classes are
  those Python gives to ASCII characters; a character outside ASCII is taken as caseless
  and not whitespace.
\<close>

definition es_espacio :: "char \<Rightarrow> bool" where
  \<comment> \<open>\<open>str.isspace\<close> on ASCII: TAB, LF, VT, FF, CR, FS, GS, RS, US and the space.\<close>
  "es_espacio c = (let n = (of_char c :: nat) in (9 \<le> n \<and> n \<le> 13) \<or> (28 \<le> n \<and> n \<le> 32))"

definition es_minuscula :: "char \<Rightarrow> bool" where
  "es_minuscula c = (let n = (of_char c :: nat) in 97 \<le> n \<and> n \<le> 122)"

definition es_mayuscula :: "char \<Rightarrow> bool" where
  "es_mayuscula c = (let n = (of_char c :: nat) in 65 \<le> n \<and> n \<le> 90)"

definition es_letra :: "char \<Rightarrow> bool" where
  "es_letra c = (es_minuscula c \<or> es_mayuscula c)"

definition char_upper :: "char \<Rightarrow> char" where
  "char_upper c = (if es_minuscula c then char_of ((of_char c :: nat) - 32) else c)"

definition char_lower :: "char \<Rightarrow> char" where
  "char_lower c = (if es_mayuscula c then char_of ((of_char c :: nat) + 32) else c)"

definition str_upper :: "string \<Rightarrow> string" where
  "str_upper s = map char_upper s"

definition str_lower :: "string \<Rightarrow> string" where
  "str_lower s = map char_lower s"

definition str_strip :: "string \<Rightarrow> string" where
  "str_strip s = rev (dropWhile es_espacio (rev (dropWhile es_espacio s)))"

text \<open>
  \<open>str.title\<close>: a character is upper-cased when the character before it is not a
  letter (or there is none) and lower-cased otherwise.
\<close>

fun title_desde :: "bool \<Rightarrow> string \<Rightarrow> string" where
  "title_desde previa [] = []"
| "title_desde previa (c # cs) =
     (if previa then char_lower c else char_upper c) # title_desde (es_letra c) cs"

definition str_title :: "string \<Rightarrow> string" where
  "str_title s = title_desde False s"

section \<open>Python values and exceptions\<close>

text \<open>
  The values \<open>json.load\<close> can produce, which are also the values a caller can pass
  where the source checks a type with \<open>isinstance\<close>. A float is a real number here:
  rounding and the non-finite floats are outside the model. A \<open>VDict\<close> holds the
  entries of a parsed object, whose keys are distinct.
\<close>

datatype valor =
    VNone
  | VBool bool
  | VInt int
  | VFloat real
  | VStr string
  | VList "valor list"
  | VDict "(string \<times> valor) list"

datatype excepcion = ValueError | KeyError | TypeError | AttributeError

section \<open>Producto\<close>

text \<open>
  \<open>fecha_creacion\<close> is a string after the constructor, but \<open>from_dict\<close> stores
  whatever value the record holds under that key, so the field is a \<open>valor\<close>.
\<close>

record producto =
  id_producto :: string
  nombre :: string
  cantidad :: int
  precio :: real
  fecha_creacion :: valor

definition validar_id :: "valor \<Rightarrow> excepcion + string" where
  "validar_id v =
     (case v of
        VStr s \<Rightarrow> if str_strip s = [] then Inl ValueError else Inr (str_upper (str_strip s))
      | _ \<Rightarrow> Inl ValueError)"

definition validar_nombre :: "valor \<Rightarrow> excepcion + string" where
  "validar_nombre v =
     (case v of
        VStr s \<Rightarrow> if str_strip s = [] then Inl ValueError else Inr (str_title (str_strip s))
      | _ \<Rightarrow> Inl ValueError)"

text \<open>
  Python's \<open>bool\<close> is a subclass of \<open>int\<close>, so \<open>True\<close> and \<open>False\<close> pass
  both \<open>isinstance\<close> checks below; they are kept as the integers 1 and 0 they equal.
\<close>

definition validar_cantidad :: "valor \<Rightarrow> excepcion + int" where
  "validar_cantidad v =
     (case v of
        VInt n \<Rightarrow> if n < 0 then Inl ValueError else Inr n
      | VBool b \<Rightarrow> Inr (if b then 1 else 0)
      | _ \<Rightarrow> Inl ValueError)"

definition validar_precio :: "valor \<Rightarrow> excepcion + real" where
  "validar_precio v =
     (case v of
        VInt n \<Rightarrow> if n < 0 then Inl ValueError else Inr (real_of_int n)
      | VFloat r \<Rightarrow> if r < 0 then Inl ValueError else Inr r
      | VBool b \<Rightarrow> Inr (if b then 1 else 0)
      | _ \<Rightarrow> Inl ValueError)"

text \<open>
  The constructor. \<open>ahora\<close> is the reading of the clock,
  \<open>datetime.now().strftime(...)\<close>.
\<close>

definition Producto :: "string \<Rightarrow> valor \<Rightarrow> valor \<Rightarrow> valor \<Rightarrow> valor \<Rightarrow> excepcion + producto" where
  "Producto ahora i n c pr =
     (case validar_id i of Inl e \<Rightarrow> Inl e | Inr i' \<Rightarrow>
     (case validar_nombre n of Inl e \<Rightarrow> Inl e | Inr n' \<Rightarrow>
     (case validar_cantidad c of Inl e \<Rightarrow> Inl e | Inr c' \<Rightarrow>
     (case validar_precio pr of Inl e \<Rightarrow> Inl e | Inr pr' \<Rightarrow>
        Inr \<lparr>id_producto = i', nombre = n', cantidad = c', precio = pr',
             fecha_creacion = VStr ahora\<rparr>))))"

text \<open>The setters of \<open>cantidad\<close> and \<open>precio\<close>.\<close>

definition set_cantidad :: "valor \<Rightarrow> producto \<Rightarrow> excepcion + producto" where
  "set_cantidad v p =
     (case validar_cantidad v of Inl e \<Rightarrow> Inl e | Inr c \<Rightarrow> Inr (p\<lparr>cantidad := c\<rparr>))"

definition set_precio :: "valor \<Rightarrow> producto \<Rightarrow> excepcion + producto" where
  "set_precio v p =
     (case validar_precio v of Inl e \<Rightarrow> Inl e | Inr r \<Rightarrow> Inr (p\<lparr>precio := r\<rparr>))"



text \<open>\<open>data[k]\<close>: a missing key raises KeyError, a value that is not a dict TypeError.\<close>

definition subscript :: "valor \<Rightarrow> string \<Rightarrow> excepcion + valor" where
  "subscript data k =
     (case data of
        VDict kv \<Rightarrow> (case map_of kv k of None \<Rightarrow> Inl KeyError | Some v \<Rightarrow> Inr v)
      | _ \<Rightarrow> Inl TypeError)"

text \<open>\<open>data.get(k, d)\<close>: a value that is not a dict has no \<open>get\<close>.\<close>

definition dict_get :: "valor \<Rightarrow> string \<Rightarrow> valor \<Rightarrow> excepcion + valor" where
  "dict_get data k d =
     (case data of
        VDict kv \<Rightarrow> (case map_of kv k of None \<Rightarrow> Inr d | Some v \<Rightarrow> Inr v)
      | _ \<Rightarrow> Inl AttributeError)"

definition from_dict :: "string \<Rightarrow> valor \<Rightarrow> excepcion + producto" where
  "from_dict ahora data =
     (case subscript data ''id_producto'' of Inl e \<Rightarrow> Inl e | Inr i \<Rightarrow>
     (case subscript data ''nombre'' of Inl e \<Rightarrow> Inl e | Inr n \<Rightarrow>
     (case subscript data ''cantidad'' of Inl e \<Rightarrow> Inl e | Inr c \<Rightarrow>
     (case subscript data ''precio'' of Inl e \<Rightarrow> Inl e | Inr pr \<Rightarrow>
     (case Producto ahora i n c pr of Inl e \<Rightarrow> Inl e | Inr producto \<Rightarrow>
     (case dict_get data ''fecha_creacion'' (fecha_creacion producto) of Inl e \<Rightarrow> Inl e
      | Inr f \<Rightarrow> Inr (producto\<lparr>fecha_creacion := f\<rparr>)))))))"

section \<open>Inventario\<close>

text \<open>
  A Python dict keeps its keys in insertion order, and several operations iterate over
  one, so a dict is an association list: \<open>d[k] = v\<close> is \<open>AList.update k v d\<close> (in
  place for a key already there, at the end for a new one), \<open>del d[k]\<close> is
  \<open>AList.delete k d\<close>, \<open>d[k]\<close> and \<open>k in d\<close> read \<open>map_of d k\<close>.
\<close>

record inventario =
  productos :: "(string \<times> producto) list"
  ids_productos :: "string set"
  indice_nombres :: "(string \<times> string list) list"
  archivo_inventario :: string

definition inventario_vacio :: "string \<Rightarrow> inventario" where
  "inventario_vacio archivo =
     \<lparr>productos = [], ids_productos = {}, indice_nombres = [], archivo_inventario = archivo\<rparr>"

definition normalizar_nombre :: "string \<Rightarrow> string" where
  "normalizar_nombre n = str_strip (str_lower n)"

definition actualizar_indice_nombres :: "producto \<Rightarrow> inventario \<Rightarrow> inventario" where
  "actualizar_indice_nombres p self =
     (let nombre_norm = normalizar_nombre (nombre p);
          indice = (if map_of (indice_nombres self) nombre_norm = None
                    then AList.update nombre_norm [] (indice_nombres self)
                    else indice_nombres self);
          cubo = (case map_of indice nombre_norm of None \<Rightarrow> [] | Some l \<Rightarrow> l)
      in if id_producto p \<notin> set cubo
         then self\<lparr>indice_nombres := AList.update nombre_norm (cubo @ [id_producto p]) indice\<rparr>
         else self\<lparr>indice_nombres := indice\<rparr>)"

definition remover_de_indice_nombres :: "producto \<Rightarrow> inventario \<Rightarrow> inventario" where
  "remover_de_indice_nombres p self =
     (let nombre_norm = normalizar_nombre (nombre p)
      in case map_of (indice_nombres self) nombre_norm of
           None \<Rightarrow> self
         | Some l \<Rightarrow>
             (let l' = (if id_producto p \<in> set l then remove1 (id_producto p) l else l)
              in if l' = []
                 then self\<lparr>indice_nombres := AList.delete nombre_norm (indice_nombres self)\<rparr>
                 else self\<lparr>indice_nombres := AList.update nombre_norm l' (indice_nombres self)\<rparr>))"

definition agregar_producto :: "producto \<Rightarrow> inventario \<Rightarrow> bool \<times> inventario" where
  "agregar_producto p self =
     (if id_producto p \<in> ids_productos self then (False, self)
      else (True,
            actualizar_indice_nombres p
              (self\<lparr>productos := AList.update (id_producto p) p (productos self),
                   ids_productos := insert (id_producto p) (ids_productos self)\<rparr>)))"

text \<open>
  \<open>self.__productos[id_producto]\<close> raises KeyError for an id that is in the set and not
  in the dict.
\<close>

definition eliminar_producto :: "string \<Rightarrow> inventario \<Rightarrow> excepcion + bool \<times> inventario" where
  "eliminar_producto i self =
     (let i' = str_strip (str_upper i)
      in if i' \<notin> ids_productos self then Inr (False, self)
         else (case map_of (productos self) i' of
                 None \<Rightarrow> Inl KeyError
               | Some p \<Rightarrow>
                   Inr (True,
                        remover_de_indice_nombres p
                          (self\<lparr>productos := AList.delete i' (productos self),
                               ids_productos := ids_productos self - {i'}\<rparr>))))"

text \<open>
  The two updates catch ValueError only. The product is changed in place, so it keeps its
  position in the dict.
\<close>

definition actualizar_cantidad :: "string \<Rightarrow> valor \<Rightarrow> inventario \<Rightarrow> excepcion + bool \<times> inventario" where
  "actualizar_cantidad i nueva_cantidad self =
     (let i' = str_strip (str_upper i)
      in case map_of (productos self) i' of
           None \<Rightarrow> Inr (False, self)
         | Some p \<Rightarrow>
             (case set_cantidad nueva_cantidad p of
                Inl e \<Rightarrow> if e = ValueError then Inr (False, self) else Inl e
              | Inr p' \<Rightarrow> Inr (True, self\<lparr>productos := AList.update i' p' (productos self)\<rparr>)))"

definition actualizar_precio :: "string \<Rightarrow> valor \<Rightarrow> inventario \<Rightarrow> excepcion + bool \<times> inventario" where
  "actualizar_precio i nuevo_precio self =
     (let i' = str_strip (str_upper i)
      in case map_of (productos self) i' of
           None \<Rightarrow> Inr (False, self)
         | Some p \<Rightarrow>
             (case set_precio nuevo_precio p of
                Inl e \<Rightarrow> if e = ValueError then Inr (False, self) else Inl e
              | Inr p' \<Rightarrow> Inr (True, self\<lparr>productos := AList.update i' p' (productos self)\<rparr>)))"



definition obtener_producto_por_id :: "string \<Rightarrow> inventario \<Rightarrow> producto option" where
  "obtener_producto_por_id i self = map_of (productos self) (str_strip (str_upper i))"

definition len :: "inventario \<Rightarrow> nat" where
  "len self = length (productos self)"

definition contains :: "string \<Rightarrow> inventario \<Rightarrow> bool" where
  "contains i self = (str_strip (str_upper i) \<in> ids_productos self)"

subsection \<open>Statistics\<close>





subsection \<open>Persistence\<close>

text \<open>
  The disk maps a path to what is there. Reading a file with \<open>json.load\<close> either
  raises (the text is not JSON) or gives a value, so a file is \<open>Malformado\<close> or the
  \<open>Documento\<close> that parsing it gives; \<open>json.dump\<close> writes the document that reads
  back as the value dumped. Opening a directory raises.
\<close>

datatype contenido = Malformado | Documento valor

datatype entrada = Directorio | Archivo contenido

type_synonym disco = "string \<Rightarrow> entrada option"




text \<open>
  What a \<open>for\<close> loop iterates over: the elements of a list, the characters of a
  string, the keys of a dict; any other value is not iterable.
\<close>

definition iterar :: "valor \<Rightarrow> excepcion + valor list" where
  "iterar v =
     (case v of
        VList xs \<Rightarrow> Inr xs
      | VStr s \<Rightarrow> Inr (map (\<lambda>c. VStr [c]) s)
      | VDict kv \<Rightarrow> Inr (map (\<lambda>(k, x). VStr k) kv)
      | _ \<Rightarrow> Inl TypeError)"

text \<open>
  The loop of \<open>cargar_inventario\<close>. A record that \<open>from_dict\<close> rejects is skipped;
  the handler reads \<open>producto_data.get\<close> for its message, which raises for a record
  that is not a dict, and that exception ends the load with the result \<open>False\<close>.
\<close>

fun cargar_productos :: "string \<Rightarrow> valor list \<Rightarrow> inventario \<Rightarrow> bool \<times> inventario" where
  "cargar_productos ahora [] self = (True, self)"
| "cargar_productos ahora (producto_data # resto) self =
     (case from_dict ahora producto_data of
        Inr producto \<Rightarrow>
          cargar_productos ahora resto
            (actualizar_indice_nombres producto
               (self\<lparr>productos := AList.update (id_producto producto) producto (productos self),
                     ids_productos := insert (id_producto producto) (ids_productos self)\<rparr>))
      | Inl e \<Rightarrow>
          (case dict_get producto_data ''id_producto'' (VStr ''desconocido'') of
             Inr m \<Rightarrow> cargar_productos ahora resto self
           | Inl e' \<Rightarrow> (False, self)))"

definition cargar_inventario :: "string \<Rightarrow> disco \<Rightarrow> inventario \<Rightarrow> bool \<times> inventario" where
  "cargar_inventario ahora d self =
     (case d (archivo_inventario self) of
        None \<Rightarrow> (True, self)
      | Some Directorio \<Rightarrow> (False, self)
      | Some (Archivo Malformado) \<Rightarrow> (False, self)
      | Some (Archivo (Documento data)) \<Rightarrow>
          (let limpio = self\<lparr>productos := [], ids_productos := {}, indice_nombres := []\<rparr>
           in case dict_get data ''productos'' (VList []) of
                Inl e \<Rightarrow> (False, limpio)
              | Inr lista \<Rightarrow>
                  (case iterar lista of
                     Inl e \<Rightarrow> (False, limpio)
                   | Inr registros \<Rightarrow> cargar_productos ahora registros limpio)))"


subsection \<open>Sequences of operations\<close>

datatype operacion =
    Agregar producto
  | Eliminar string
  | ActualizarCantidad string valor
  | ActualizarPrecio string valor

fun aplicar :: "operacion \<Rightarrow> inventario \<Rightarrow> excepcion + inventario" where
  "aplicar (Agregar p) self = Inr (snd (agregar_producto p self))"
| "aplicar (Eliminar i) self = map_sum id snd (eliminar_producto i self)"
| "aplicar (ActualizarCantidad i v) self = map_sum id snd (actualizar_cantidad i v self)"
| "aplicar (ActualizarPrecio i v) self = map_sum id snd (actualizar_precio i v self)"

fun aplicar_todas :: "operacion list \<Rightarrow> inventario \<Rightarrow> excepcion + inventario" where
  "aplicar_todas [] self = Inr self"
| "aplicar_todas (op # ops) self =
     (case aplicar op self of Inl e \<Rightarrow> Inl e | Inr self' \<Rightarrow> aplicar_todas ops self')"

section \<open>Invariants of the store\<close>

text \<open>
  The keys of a dict are distinct. Every product is stored under its own id, and the set
  of ids mirrors the keys of \<open>productos\<close>.
\<close>

definition claves_unicas :: "inventario \<Rightarrow> bool" where
  "claves_unicas self =
     (distinct (map fst (productos self)) \<and> distinct (map fst (indice_nombres self)))"

definition ids_sincronizados :: "inventario \<Rightarrow> bool" where
  "ids_sincronizados self =
     (ids_productos self = fst ` set (productos self)
      \<and> (\<forall>(i, p)\<in>set (productos self). id_producto p = i))"

text \<open>
  The name index: a bucket is not empty and lists no id twice, each of its ids is the id
  of a product whose normalized name is the key of the bucket, and every product is
  listed in the bucket of its normalized name.
\<close>

definition indice_consistente :: "inventario \<Rightarrow> bool" where
  "indice_consistente self =
     ((\<forall>(k, l)\<in>set (indice_nombres self).
         l \<noteq> [] \<and> distinct l
         \<and> (\<forall>i\<in>set l. case map_of (productos self) i of
                           None \<Rightarrow> False
                         | Some p \<Rightarrow> normalizar_nombre (nombre p) = k))
      \<and> (\<forall>(i, p)\<in>set (productos self).
           case map_of (indice_nombres self) (normalizar_nombre (nombre p)) of
             None \<Rightarrow> False
           | Some l \<Rightarrow> i \<in> set l))"

definition invariante :: "inventario \<Rightarrow> bool" where
  "invariante self = (claves_unicas self \<and> ids_sincronizados self \<and> indice_consistente self)"

text \<open>The invariant read through the lookups of the two dicts.\<close>

definition inv_map :: "(string \<rightharpoonup> producto) \<Rightarrow> string set \<Rightarrow> (string \<rightharpoonup> string list) \<Rightarrow> bool" where
  "inv_map P ids I =
     (ids = dom P
      \<and> (\<forall>i p. P i = Some p \<longrightarrow>
            id_producto p = i
            \<and> (\<exists>l. I (normalizar_nombre (nombre p)) = Some l \<and> i \<in> set l))
      \<and> (\<forall>k l. I k = Some l \<longrightarrow>
            l \<noteq> [] \<and> distinct l
            \<and> (\<forall>i\<in>set l. \<exists>p. P i = Some p \<and> normalizar_nombre (nombre p) = k)))"

text \<open>What the constructor and the setters of \<open>Producto\<close> guarantee of its fields.\<close>

definition producto_valido :: "producto \<Rightarrow> bool" where
  "producto_valido p =
     (str_strip (id_producto p) \<noteq> [] \<and> str_upper (str_strip (id_producto p)) = id_producto p
      \<and> str_strip (nombre p) \<noteq> [] \<and> str_title (str_strip (nombre p)) = nombre p
      \<and> 0 \<le> cantidad p \<and> 0 \<le> precio p)"

section \<open>Example data\<close>

text \<open>The two products of the example in the specification.\<close>

definition laptop :: producto where
  "laptop = \<lparr>id_producto = ''LAPTOP001'', nombre = ''Laptop Dell Xps 13'', cantidad = 10,
             precio = 1299.99, fecha_creacion = VStr ''2024-05-01 10:00:00''\<rparr>"

definition mouse :: producto where
  "mouse = \<lparr>id_producto = ''MOUSE001'', nombre = ''Mouse Logitech Mx Master 3'', cantidad = 25,
            precio = 99.99, fecha_creacion = VStr ''2024-05-01 10:00:01''\<rparr>"

definition cable :: producto where
  "cable = \<lparr>id_producto = ''CABLE001'', nombre = ''Cable Usb-C'', cantidad = 50,
            precio = 19.99, fecha_creacion = VStr ''2024-05-01 10:00:02''\<rparr>"

definition tienda_ejemplo :: inventario where
  "tienda_ejemplo =
     \<lparr>productos = [(''LAPTOP001'', laptop), (''MOUSE001'', mouse)],
      ids_productos = {''LAPTOP001'', ''MOUSE001''},
      indice_nombres = [(''laptop dell xps 13'', [''LAPTOP001'']),
                        (''mouse logitech mx master 3'', [''MOUSE001''])],
      archivo_inventario = ''inventario.json''\<rparr>"

definition operaciones_ejemplo :: "operacion list" where
  "operaciones_ejemplo =
     [Agregar laptop, Agregar mouse, ActualizarCantidad ''laptop001'' (VInt 7),
      Eliminar '' mouse001 '']"

definition tienda_final :: inventario where
  "tienda_final =
     \<lparr>productos = [(''LAPTOP001'', laptop\<lparr>cantidad := 7\<rparr>)],
      ids_productos = {''LAPTOP001''},
      indice_nombres = [(''laptop dell xps 13'', [''LAPTOP001''])],
      archivo_inventario = ''inventario.json''\<rparr>"

definition registro_a :: valor where
  "registro_a =
     VDict [(''id_producto'', VStr ''a1''), (''nombre'', VStr ''tornillo''),
            (''cantidad'', VInt 5), (''precio'', VInt 2),
            (''fecha_creacion'', VStr ''2024-01-01 00:00:00'')]"

definition registro_b :: valor where
  "registro_b =
     VDict [(''id_producto'', VStr '' A1 ''), (''nombre'', VStr ''tuerca''),
            (''cantidad'', VInt 9), (''precio'', VInt 3)]"

definition producto_a :: producto where
  "producto_a = \<lparr>id_producto = ''A1'', nombre = ''Tornillo'', cantidad = 5, precio = 2,
                 fecha_creacion = VStr ''2024-01-01 00:00:00''\<rparr>"

definition producto_b :: producto where
  "producto_b = \<lparr>id_producto = ''A1'', nombre = ''Tuerca'', cantidad = 9, precio = 3,
                 fecha_creacion = VStr ''2024-05-02 08:00:00''\<rparr>"

definition disco_duplicados :: disco where
  "disco_duplicados =
     [''inventario.json'' \<mapsto>
        Archivo (Documento (VDict [(''productos'', VList [registro_a, registro_b]),
                                   (''fecha_guardado'', VStr ''2024-01-02 00:00:00''),
                                   (''version'', VStr ''1.0'')]))]"

section \<open>Evaluation of the example data\<close>

lemma nn_laptop: "normalizar_nombre (nombre laptop) = ''laptop dell xps 13''"
  unfolding laptop_def by code_simp

lemma nn_mouse: "normalizar_nombre (nombre mouse) = ''mouse logitech mx master 3''"
  unfolding mouse_def by code_simp

lemma nn_cable: "normalizar_nombre (nombre cable) = ''cable usb-c''"
  unfolding cable_def by code_simp

text \<open>The example store is the empty store after the two products are added.\<close>

lemma tienda_ejemplo_alcanzable:
  "snd (agregar_producto mouse
         (snd (agregar_producto laptop (inventario_vacio ''inventario.json''))))
   = tienda_ejemplo"
  by (simp add: agregar_producto_def actualizar_indice_nombres_def nn_laptop nn_mouse
        inventario_vacio_def tienda_ejemplo_def Let_def)
     (simp add: laptop_def mouse_def insert_commute)

section \<open>Association lists\<close>

lemma length_update:
  "length (AList.update k v al) = (if k \<in> fst ` set al then length al else Suc (length al))"
  by (induction al) auto

section \<open>Adding a product\<close>

text \<open>
  C3. In a store whose set of ids mirrors its products, adding a product whose id is
  already present returns \<open>False\<close> and the store is the same store (so its count and
  the product stored under that id are as before); adding a product whose id is absent
  returns \<open>True\<close>, and afterwards the product is stored under its id, the id is in the
  set of ids and in the bucket of the product's normalized name, and the count is one
  more.
\<close>

theorem agregar_producto_contract:
  assumes "ids_productos self = fst ` set (productos self)"
  shows "(map_of (productos self) (id_producto p) \<noteq> None \<longrightarrow>
            agregar_producto p self = (False, self))
       \<and> (map_of (productos self) (id_producto p) = None \<longrightarrow>
            (\<exists>self'. agregar_producto p self = (True, self')
               \<and> map_of (productos self') (id_producto p) = Some p
               \<and> id_producto p \<in> ids_productos self'
               \<and> (\<exists>l. map_of (indice_nombres self') (normalizar_nombre (nombre p)) = Some l
                      \<and> id_producto p \<in> set l)
               \<and> len self' = Suc (len self)))"
  using assms
  by (auto simp: agregar_producto_def actualizar_indice_nombres_def Let_def len_def
        update_conv' map_of_eq_None_iff length_update split: option.splits)

theorem agregar_producto_contract_witness:
  "ids_productos tienda_ejemplo = fst ` set (productos tienda_ejemplo)
   \<and> map_of (productos tienda_ejemplo) (id_producto laptop) \<noteq> None
   \<and> agregar_producto laptop tienda_ejemplo = (False, tienda_ejemplo)
   \<and> map_of (productos tienda_ejemplo) (id_producto cable) = None
   \<and> (\<exists>self'. agregar_producto cable tienda_ejemplo = (True, self')
         \<and> map_of (productos self') (id_producto cable) = Some cable
         \<and> id_producto cable \<in> ids_productos self'
         \<and> (\<exists>l. map_of (indice_nombres self') (normalizar_nombre (nombre cable)) = Some l
                \<and> id_producto cable \<in> set l)
         \<and> len self' = Suc (len tienda_ejemplo))"
proof -
  have h: "ids_productos tienda_ejemplo = fst ` set (productos tienda_ejemplo)"
    by (simp add: tienda_ejemplo_def)
  have a: "map_of (productos tienda_ejemplo) (id_producto laptop) \<noteq> None"
    by (simp add: tienda_ejemplo_def laptop_def)
  have b: "map_of (productos tienda_ejemplo) (id_producto cable) = None"
    by (simp add: tienda_ejemplo_def cable_def)
  from agregar_producto_contract [OF h, of laptop] agregar_producto_contract [OF h, of cable]
  show ?thesis using h a b by blast
qed

section \<open>Statistics\<close>








section \<open>Loading\<close>

text \<open>
  C8. When the file of the store exists and its text does not parse, the load returns
  \<open>False\<close> and the store is exactly the store before the call: the collections are
  cleared only after \<open>json.load\<close> has returned.
\<close>

theorem cargar_malformado:
  assumes "d (archivo_inventario self) = Some (Archivo Malformado)"
  shows "cargar_inventario ahora d self = (False, self)"
  using assms by (simp add: cargar_inventario_def)

theorem cargar_malformado_witness:
  "[''inventario.json'' \<mapsto> Archivo Malformado] (archivo_inventario tienda_ejemplo)
     = Some (Archivo Malformado)
   \<and> cargar_inventario ''2024-05-02 08:00:00'' [''inventario.json'' \<mapsto> Archivo Malformado]
        tienda_ejemplo = (False, tienda_ejemplo)"
proof -
  have h: "[''inventario.json'' \<mapsto> Archivo Malformado] (archivo_inventario tienda_ejemplo)
     = Some (Archivo Malformado)"
    by (simp add: tienda_ejemplo_def)
  from cargar_malformado [of "[''inventario.json'' \<mapsto> Archivo Malformado]" tienda_ejemplo, OF h] h
  show ?thesis by simp
qed

text \<open>
  C7. When the file of the store does not exist the load returns \<open>True\<close> before it
  clears anything: a store with products keeps them. Here the example store, with its two
  products, is loaded from a disk that has no file.
\<close>

theorem cargar_inexistente_no_vacia:
  "cargar_inventario ''2024-05-02 08:00:00'' Map.empty tienda_ejemplo = (True, tienda_ejemplo)
   \<and> len tienda_ejemplo = 2"
  by (simp add: cargar_inventario_def len_def tienda_ejemplo_def)

section \<open>The invariant is kept by the operations\<close>
lemma ball_alist:
  "distinct (map fst al) \<Longrightarrow> (\<forall>(k, v)\<in>set al. Q k v) = (\<forall>k v. map_of al k = Some v \<longrightarrow> Q k v)"
  by auto

lemma ids_sincronizados_map:
  assumes dp: "distinct (map fst (productos self))"
  shows "ids_sincronizados self =
           (ids_productos self = dom (map_of (productos self))
            \<and> (\<forall>i p. map_of (productos self) i = Some p \<longrightarrow> id_producto p = i))"
  unfolding ids_sincronizados_def ball_alist [OF dp]
  by (simp add: dom_map_of_conv_image_fst)

lemma indice_consistente_map:
  assumes dp: "distinct (map fst (productos self))"
    and di: "distinct (map fst (indice_nombres self))"
  shows "indice_consistente self =
     ((\<forall>k l. map_of (indice_nombres self) k = Some l \<longrightarrow>
            l \<noteq> [] \<and> distinct l
            \<and> (\<forall>i\<in>set l. \<exists>p. map_of (productos self) i = Some p
                              \<and> normalizar_nombre (nombre p) = k))
     \<and> (\<forall>i p. map_of (productos self) i = Some p \<longrightarrow>
           (\<exists>l. map_of (indice_nombres self) (normalizar_nombre (nombre p)) = Some l
                   \<and> i \<in> set l)))"
proof -
  have a: "\<And>i k. (case map_of (productos self) i of None \<Rightarrow> False
                    | Some p \<Rightarrow> normalizar_nombre (nombre p) = k)
       = (\<exists>p. map_of (productos self) i = Some p \<and> normalizar_nombre (nombre p) = k)"
    by (simp split: option.split)
  have b: "\<And>i p. (case map_of (indice_nombres self) (normalizar_nombre (nombre p)) of
                      None \<Rightarrow> False | Some l \<Rightarrow> i \<in> set l)
       = (\<exists>l. map_of (indice_nombres self) (normalizar_nombre (nombre p)) = Some l \<and> i \<in> set l)"
    by (simp split: option.split)
  show ?thesis
    unfolding indice_consistente_def ball_alist [OF dp] ball_alist [OF di] a b ..
qed

lemma invariante_map:
  "invariante self =
     (distinct (map fst (productos self)) \<and> distinct (map fst (indice_nombres self))
      \<and> inv_map (map_of (productos self)) (ids_productos self)
           (map_of (indice_nombres self)))"
proof (cases "distinct (map fst (productos self)) \<and> distinct (map fst (indice_nombres self))")
  case False
  then show ?thesis by (auto simp: invariante_def claves_unicas_def)
next
  case True
  then have dp: "distinct (map fst (productos self))"
    and di: "distinct (map fst (indice_nombres self))" by auto
  show ?thesis
    unfolding invariante_def claves_unicas_def ids_sincronizados_map [OF dp]
      indice_consistente_map [OF dp di] inv_map_def
    by blast
qed

lemma actualizar_indice_nombres_eq:
  "actualizar_indice_nombres p self =
     (case map_of (indice_nombres self) (normalizar_nombre (nombre p)) of
        None \<Rightarrow> self\<lparr>indice_nombres :=
                   AList.update (normalizar_nombre (nombre p)) [id_producto p] (indice_nombres self)\<rparr>
      | Some l \<Rightarrow>
          if id_producto p \<in> set l then self
          else self\<lparr>indice_nombres :=
                   AList.update (normalizar_nombre (nombre p)) (l @ [id_producto p]) (indice_nombres self)\<rparr>)"
  by (auto simp: actualizar_indice_nombres_def Let_def update_conv' split: option.splits)

lemma invariante_vacio: "invariante (inventario_vacio f)"
  by (simp add: invariante_def claves_unicas_def ids_sincronizados_def
        indice_consistente_def inventario_vacio_def)

lemma inv_map_upd:
  assumes "inv_map P ids I" "P i = Some p" "nombre p' = nombre p" "id_producto p' = i"
  shows "inv_map (P(i \<mapsto> p')) ids I"
proof -
  from assms(1) have ids: "ids = dom P"
    and Pp: "\<And>j q. P j = Some q \<Longrightarrow> id_producto q = j \<and> (\<exists>l. I (normalizar_nombre (nombre q)) = Some l \<and> j \<in> set l)"
    and Ii: "\<And>k l. I k = Some l \<Longrightarrow> l \<noteq> [] \<and> distinct l \<and> (\<forall>j\<in>set l. \<exists>q. P j = Some q \<and> normalizar_nombre (nombre q) = k)"
    unfolding inv_map_def by blast+
  have 1: "ids = dom (P(i \<mapsto> p'))" using ids assms(2) by auto
  have 2: "\<forall>j q. (P(i \<mapsto> p')) j = Some q \<longrightarrow>
            id_producto q = j
            \<and> (\<exists>l. I (normalizar_nombre (nombre q)) = Some l \<and> j \<in> set l)"
  proof (intro allI impI)
    fix j q assume h: "(P(i \<mapsto> p')) j = Some q"
    show "id_producto q = j \<and> (\<exists>l. I (normalizar_nombre (nombre q)) = Some l \<and> j \<in> set l)"
    proof (cases "j = i")
      case True
      with h have "q = p'" by simp
      with True assms(3,4) Pp [OF assms(2)] show ?thesis by simp
    next
      case False
      with h have "P j = Some q" by simp
      from Pp [OF this] show ?thesis .
    qed
  qed
  have 3: "\<forall>k l. I k = Some l \<longrightarrow>
            l \<noteq> [] \<and> distinct l
            \<and> (\<forall>j\<in>set l. \<exists>q. (P(i \<mapsto> p')) j = Some q \<and> normalizar_nombre (nombre q) = k)"
  proof (intro allI impI conjI ballI)
    fix k l assume h: "I k = Some l"
    from Ii [OF h] show "l \<noteq> []" "distinct l" by simp_all
    fix j assume "j \<in> set l"
    with Ii [OF h] obtain q where q: "P j = Some q" "normalizar_nombre (nombre q) = k" by blast
    show "\<exists>q. (P(i \<mapsto> p')) j = Some q \<and> normalizar_nombre (nombre q) = k"
    proof (cases "j = i")
      case True
      with q assms(2) have "q = p" by simp
      with q True assms(3) show ?thesis by simp
    next
      case False
      with q show ?thesis by simp
    qed
  qed
  show ?thesis unfolding inv_map_def using 1 2 3 by blast
qed

lemma inv_map_add:
  assumes "inv_map P ids I" "P i = None" "id_producto p = i"
  shows "inv_map (P(i \<mapsto> p)) (insert i ids)
           (I(normalizar_nombre (nombre p) \<mapsto>
                (case I (normalizar_nombre (nombre p)) of None \<Rightarrow> [i] | Some l \<Rightarrow> l @ [i])))"
proof -
  let ?nk = "normalizar_nombre (nombre p)"
  let ?l' = "case I ?nk of None \<Rightarrow> [i] | Some l \<Rightarrow> l @ [i]"
  from assms(1) have ids: "ids = dom P"
    and Pp: "\<And>j q. P j = Some q \<Longrightarrow> id_producto q = j \<and> (\<exists>l. I (normalizar_nombre (nombre q)) = Some l \<and> j \<in> set l)"
    and Ii: "\<And>k l. I k = Some l \<Longrightarrow> l \<noteq> [] \<and> distinct l \<and> (\<forall>j\<in>set l. \<exists>q. P j = Some q \<and> normalizar_nombre (nombre q) = k)"
    unfolding inv_map_def by blast+
  have notin: "i \<notin> set l" if "I k = Some l" for k l
  proof
    assume "i \<in> set l"
    with Ii [OF that] obtain q where "P i = Some q" by blast
    with assms(2) show False by simp
  qed
  have in_l': "i \<in> set ?l'" by (simp split: option.split)
  have 1: "insert i ids = dom (P(i \<mapsto> p))" using ids by simp
  have 2: "\<forall>j q. (P(i \<mapsto> p)) j = Some q \<longrightarrow>
            id_producto q = j
            \<and> (\<exists>l. (I(?nk \<mapsto> ?l')) (normalizar_nombre (nombre q)) = Some l \<and> j \<in> set l)"
  proof (intro allI impI)
    fix j q assume h: "(P(i \<mapsto> p)) j = Some q"
    show "id_producto q = j \<and> (\<exists>l. (I(?nk \<mapsto> ?l')) (normalizar_nombre (nombre q)) = Some l \<and> j \<in> set l)"
    proof (cases "j = i")
      case True
      with h have "q = p" by simp
      with True assms(3) in_l' show ?thesis by simp
    next
      case False
      with h have Pj: "P j = Some q" by simp
      from Pp [OF Pj] obtain l where l: "id_producto q = j" "I (normalizar_nombre (nombre q)) = Some l" "j \<in> set l"
        by blast
      show ?thesis
      proof (cases "normalizar_nombre (nombre q) = ?nk")
        case True
        with l have "?l' = l @ [i]" by simp
        with True l show ?thesis by simp
      next
        case False
        with l show ?thesis by simp
      qed
    qed
  qed
  have 3: "\<forall>k l. (I(?nk \<mapsto> ?l')) k = Some l \<longrightarrow>
            l \<noteq> [] \<and> distinct l
            \<and> (\<forall>j\<in>set l. \<exists>q. (P(i \<mapsto> p)) j = Some q \<and> normalizar_nombre (nombre q) = k)"
  proof (intro allI impI)
    fix k l assume h: "(I(?nk \<mapsto> ?l')) k = Some l"
    show "l \<noteq> [] \<and> distinct l
            \<and> (\<forall>j\<in>set l. \<exists>q. (P(i \<mapsto> p)) j = Some q \<and> normalizar_nombre (nombre q) = k)"
    proof (cases "k = ?nk")
      case False
      with h have Ik: "I k = Some l" by simp
      have "\<exists>q. (P(i \<mapsto> p)) j = Some q \<and> normalizar_nombre (nombre q) = k" if "j \<in> set l" for j
      proof -
        from that notin [OF Ik] have "j \<noteq> i" by blast
        with Ii [OF Ik] that show ?thesis by simp
      qed
      with Ii [OF Ik] show ?thesis by blast
    next
      case True
      with h have l: "l = ?l'" by simp
      show ?thesis
      proof (cases "I ?nk")
        case None
        with l True show ?thesis by simp
      next
        case (Some l0)
        with l have l2: "l = l0 @ [i]" by simp
        have "\<exists>q. (P(i \<mapsto> p)) j = Some q \<and> normalizar_nombre (nombre q) = k" if "j \<in> set l" for j
        proof (cases "j = i")
          case True
          then show ?thesis using \<open>k = ?nk\<close> by simp
        next
          case False
          with that l2 have "j \<in> set l0" by simp
          with Ii [OF Some] False True show ?thesis by simp
        qed
        moreover have "distinct l" using l2 Ii [OF Some] notin [OF Some] by simp
        moreover have "l \<noteq> []" using l2 by simp
        ultimately show ?thesis by blast
      qed
    qed
  qed
  show ?thesis unfolding inv_map_def using 1 2 3 by blast
qed

lemma inv_map_del:
  assumes "inv_map P ids I" "P i = Some p" "I (normalizar_nombre (nombre p)) = Some l"
  shows "inv_map (P(i := None)) (ids - {i})
           (if remove1 i l = [] then I(normalizar_nombre (nombre p) := None)
            else I(normalizar_nombre (nombre p) \<mapsto> remove1 i l))"
proof -
  let ?nk = "normalizar_nombre (nombre p)"
  let ?I' = "if remove1 i l = [] then I(?nk := None) else I(?nk \<mapsto> remove1 i l)"
  from assms(1) have ids: "ids = dom P"
    and Pp: "\<And>j q. P j = Some q \<Longrightarrow> id_producto q = j \<and> (\<exists>l. I (normalizar_nombre (nombre q)) = Some l \<and> j \<in> set l)"
    and Ii: "\<And>k l. I k = Some l \<Longrightarrow> l \<noteq> [] \<and> distinct l \<and> (\<forall>j\<in>set l. \<exists>q. P j = Some q \<and> normalizar_nombre (nombre q) = k)"
    unfolding inv_map_def by blast+
  have dl: "distinct l" using Ii [OF assms(3)] by simp
  have set_rm: "set (remove1 i l) = set l - {i}" using dl by simp
  have 1: "ids - {i} = dom (P(i := None))" using ids by auto
  have 2: "\<forall>j q. (P(i := None)) j = Some q \<longrightarrow>
            id_producto q = j
            \<and> (\<exists>l. ?I' (normalizar_nombre (nombre q)) = Some l \<and> j \<in> set l)"
  proof (intro allI impI)
    fix j q assume h: "(P(i := None)) j = Some q"
    then have ji: "j \<noteq> i" and Pj: "P j = Some q" by (auto split: if_splits)
    from Pp [OF Pj] obtain l0 where l0: "id_producto q = j" "I (normalizar_nombre (nombre q)) = Some l0" "j \<in> set l0"
      by blast
    show "id_producto q = j \<and> (\<exists>l. ?I' (normalizar_nombre (nombre q)) = Some l \<and> j \<in> set l)"
    proof (cases "normalizar_nombre (nombre q) = ?nk")
      case True
      with l0 assms(3) have "l0 = l" by simp
      with l0 ji have "j \<in> set (remove1 i l)" using set_rm by simp
      then have "remove1 i l \<noteq> []" by auto
      with True l0 \<open>j \<in> set (remove1 i l)\<close> show ?thesis by simp
    next
      case False
      with l0 show ?thesis by simp
    qed
  qed
  have 3: "\<forall>k l'. ?I' k = Some l' \<longrightarrow>
            l' \<noteq> [] \<and> distinct l'
            \<and> (\<forall>j\<in>set l'. \<exists>q. (P(i := None)) j = Some q \<and> normalizar_nombre (nombre q) = k)"
  proof (intro allI impI)
    fix k l' assume h: "?I' k = Some l'"
    show "l' \<noteq> [] \<and> distinct l'
            \<and> (\<forall>j\<in>set l'. \<exists>q. (P(i := None)) j = Some q \<and> normalizar_nombre (nombre q) = k)"
    proof (cases "k = ?nk")
      case True
      with h have l': "l' = remove1 i l" "remove1 i l \<noteq> []" by (auto split: if_splits)
      have "\<exists>q. (P(i := None)) j = Some q \<and> normalizar_nombre (nombre q) = k" if "j \<in> set l'" for j
      proof -
        from that l' set_rm have "j \<in> set l" "j \<noteq> i" by auto
        with Ii [OF assms(3)] True show ?thesis by simp
      qed
      with l' dl show ?thesis by simp
    next
      case False
      with h have Ik: "I k = Some l'" by (auto split: if_splits)
      have "\<exists>q. (P(i := None)) j = Some q \<and> normalizar_nombre (nombre q) = k" if "j \<in> set l'" for j
      proof -
        from Ii [OF Ik] that obtain q where q: "P j = Some q" "normalizar_nombre (nombre q) = k" by blast
        with False assms(2) have "j \<noteq> i" by auto
        with q show ?thesis by simp
      qed
      with Ii [OF Ik] show ?thesis by blast
    qed
  qed
  show ?thesis unfolding inv_map_def using 1 2 3 by blast
qed

lemma inv_map_ids: "inv_map P ids I \<Longrightarrow> ids = dom P"
  unfolding inv_map_def by blast

lemma inv_map_P:
  "inv_map P ids I \<Longrightarrow> P j = Some q \<Longrightarrow>
     id_producto q = j \<and> (\<exists>l. I (normalizar_nombre (nombre q)) = Some l \<and> j \<in> set l)"
  unfolding inv_map_def by blast

lemma inv_map_I:
  "inv_map P ids I \<Longrightarrow> I k = Some l \<Longrightarrow>
     l \<noteq> [] \<and> distinct l \<and> (\<forall>j\<in>set l. \<exists>q. P j = Some q \<and> normalizar_nombre (nombre q) = k)"
  unfolding inv_map_def by blast

lemma invariante_D:
  "invariante self \<Longrightarrow> distinct (map fst (productos self))"
  "invariante self \<Longrightarrow> distinct (map fst (indice_nombres self))"
  "invariante self \<Longrightarrow>
     inv_map (map_of (productos self)) (ids_productos self) (map_of (indice_nombres self))"
  unfolding invariante_map by blast+

lemma remover_de_indice_nombres_eq:
  "remover_de_indice_nombres p self =
     (case map_of (indice_nombres self) (normalizar_nombre (nombre p)) of
        None \<Rightarrow> self
      | Some l \<Rightarrow>
          if remove1 (id_producto p) l = []
          then self\<lparr>indice_nombres := AList.delete (normalizar_nombre (nombre p)) (indice_nombres self)\<rparr>
          else self\<lparr>indice_nombres := AList.update (normalizar_nombre (nombre p))
                                          (remove1 (id_producto p) l) (indice_nombres self)\<rparr>)"
  by (simp add: remover_de_indice_nombres_def Let_def remove1_idem split: option.split)

lemma invariante_agregar:
  assumes "invariante self"
  shows "invariante (snd (agregar_producto p self))"
proof (cases "id_producto p \<in> ids_productos self")
  case True
  then show ?thesis using assms by (simp add: agregar_producto_def)
next
  case False
  let ?i = "id_producto p" and ?nk = "normalizar_nombre (nombre p)"
  let ?P = "map_of (productos self)" and ?I = "map_of (indice_nombres self)"
  note dp = invariante_D(1) [OF assms(1)] and di = invariante_D(2) [OF assms(1)]
    and im = invariante_D(3) [OF assms(1)]
  from inv_map_ids [OF im] False have Pn: "?P ?i = None" by blast
  let ?l' = "case ?I ?nk of None \<Rightarrow> [?i] | Some l \<Rightarrow> l @ [?i]"
  have notin: "?i \<notin> set l" if "?I ?nk = Some l" for l
  proof
    assume "?i \<in> set l"
    with inv_map_I [OF im that] obtain q where "?P ?i = Some q" by blast
    with Pn show False by simp
  qed
  have res: "snd (agregar_producto p self) =
      self\<lparr>productos := AList.update ?i p (productos self),
           ids_productos := insert ?i (ids_productos self),
           indice_nombres := AList.update ?nk ?l' (indice_nombres self)\<rparr>"
  proof (cases "?I ?nk")
    case None
    then show ?thesis using False
      by (simp add: agregar_producto_def actualizar_indice_nombres_eq)
  next
    case (Some l)
    with notin [OF Some] show ?thesis using False
      by (simp add: agregar_producto_def actualizar_indice_nombres_eq)
  qed
  from inv_map_add [OF im Pn refl]
  show ?thesis unfolding res invariante_map
    by (simp add: update_conv' distinct_update dp di)
qed

lemma eliminar_producto_ausente:
  "str_strip (str_upper i) \<notin> ids_productos self \<Longrightarrow> eliminar_producto i self = Inr (False, self)"
  by (simp add: eliminar_producto_def)

lemma eliminar_producto_presente:
  assumes "invariante self" "str_strip (str_upper i) \<in> ids_productos self"
  shows "\<exists>p l. map_of (productos self) (str_strip (str_upper i)) = Some p
           \<and> map_of (indice_nombres self) (normalizar_nombre (nombre p)) = Some l
           \<and> str_strip (str_upper i) \<in> set l
           \<and> eliminar_producto i self =
               Inr (True,
                    self\<lparr>productos := AList.delete (str_strip (str_upper i)) (productos self),
                         ids_productos := ids_productos self - {str_strip (str_upper i)},
                         indice_nombres :=
                           (if remove1 (str_strip (str_upper i)) l = []
                            then AList.delete (normalizar_nombre (nombre p)) (indice_nombres self)
                            else AList.update (normalizar_nombre (nombre p))
                                   (remove1 (str_strip (str_upper i)) l) (indice_nombres self))\<rparr>)"
proof -
  let ?i = "str_strip (str_upper i)"
  let ?P = "map_of (productos self)" and ?I = "map_of (indice_nombres self)"
  note im = invariante_D(3) [OF assms(1)]
  from inv_map_ids [OF im] assms(2) obtain p where p: "?P ?i = Some p" by blast
  with inv_map_P [OF im p] obtain l where l: "id_producto p = ?i" "?I (normalizar_nombre (nombre p)) = Some l" "?i \<in> set l"
    by blast
  have "eliminar_producto i self =
               Inr (True,
                    self\<lparr>productos := AList.delete ?i (productos self),
                         ids_productos := ids_productos self - {?i},
                         indice_nombres :=
                           (if remove1 ?i l = []
                            then AList.delete (normalizar_nombre (nombre p)) (indice_nombres self)
                            else AList.update (normalizar_nombre (nombre p))
                                   (remove1 ?i l) (indice_nombres self))\<rparr>)"
    using assms(2) p l
    by (simp add: eliminar_producto_def Let_def remover_de_indice_nombres_eq)
  with p l show ?thesis by blast
qed

lemma invariante_eliminar:
  assumes "invariante self" "eliminar_producto i self = Inr (b, self')"
  shows "invariante self'"
proof (cases "str_strip (str_upper i) \<in> ids_productos self")
  case False
  with assms show ?thesis by (simp add: eliminar_producto_ausente)
next
  case True
  let ?i = "str_strip (str_upper i)"
  let ?P = "map_of (productos self)" and ?I = "map_of (indice_nombres self)"
  note dp = invariante_D(1) [OF assms(1)] and di = invariante_D(2) [OF assms(1)]
    and im = invariante_D(3) [OF assms(1)]
  from eliminar_producto_presente [OF assms(1) True] assms(2)
  obtain p l where p: "?P ?i = Some p" and l: "?I (normalizar_nombre (nombre p)) = Some l"
    and s: "self' = self\<lparr>productos := AList.delete ?i (productos self),
                         ids_productos := ids_productos self - {?i},
                         indice_nombres :=
                           (if remove1 ?i l = []
                            then AList.delete (normalizar_nombre (nombre p)) (indice_nombres self)
                            else AList.update (normalizar_nombre (nombre p))
                                   (remove1 ?i l) (indice_nombres self))\<rparr>"
    by auto
  show ?thesis
  proof (cases "remove1 ?i l = []")
    case True
    with inv_map_del [OF im p l] show ?thesis unfolding s invariante_map
      by (simp add: delete_conv' distinct_delete dp di)
  next
    case False
    with inv_map_del [OF im p l] show ?thesis unfolding s invariante_map
      by (simp add: update_conv' delete_conv' distinct_update distinct_delete dp di)
  qed
qed

lemma set_cantidad_error: "set_cantidad v p = Inl e \<Longrightarrow> e = ValueError"
  by (auto simp: set_cantidad_def validar_cantidad_def split: valor.splits if_splits sum.splits)

lemma set_precio_error: "set_precio v p = Inl e \<Longrightarrow> e = ValueError"
  by (auto simp: set_precio_def validar_precio_def split: valor.splits if_splits sum.splits)

lemma set_cantidad_campos:
  "set_cantidad v p = Inr p' \<Longrightarrow> nombre p' = nombre p \<and> id_producto p' = id_producto p"
  by (auto simp: set_cantidad_def split: sum.splits)

lemma set_precio_campos:
  "set_precio v p = Inr p' \<Longrightarrow> nombre p' = nombre p \<and> id_producto p' = id_producto p"
  by (auto simp: set_precio_def split: sum.splits)

lemma invariante_reemplazar:
  assumes "invariante self" "map_of (productos self) i = Some p"
    "nombre p' = nombre p" "id_producto p' = id_producto p"
  shows "invariante (self\<lparr>productos := AList.update i p' (productos self)\<rparr>)"
proof -
  note dp = invariante_D(1) [OF assms(1)] and di = invariante_D(2) [OF assms(1)]
    and im = invariante_D(3) [OF assms(1)]
  from inv_map_P [OF im assms(2)] assms(4) have "id_producto p' = i" by simp
  from inv_map_upd [OF im assms(2) assms(3) this]
  show ?thesis unfolding invariante_map
    by (simp add: update_conv' distinct_update dp di)
qed

lemma actualizar_cantidad_invariante:
  assumes "invariante self"
  shows "\<exists>b self'. actualizar_cantidad i v self = Inr (b, self') \<and> invariante self'"
proof (cases "map_of (productos self) (str_strip (str_upper i))")
  case None
  then show ?thesis using assms by (auto simp: actualizar_cantidad_def)
next
  case (Some p)
  show ?thesis
  proof (cases "set_cantidad v p")
    case (Inl e)
    with set_cantidad_error [OF Inl] Some assms show ?thesis
      by (auto simp: actualizar_cantidad_def)
  next
    case (Inr p')
    from set_cantidad_campos [OF Inr] have n: "nombre p' = nombre p"
      and k: "id_producto p' = id_producto p" by simp_all
    have "actualizar_cantidad i v self =
            Inr (True, self\<lparr>productos := AList.update (str_strip (str_upper i)) p' (productos self)\<rparr>)"
      using Some Inr by (simp add: actualizar_cantidad_def)
    with invariante_reemplazar [OF assms Some n k] show ?thesis by blast
  qed
qed

lemma actualizar_precio_invariante:
  assumes "invariante self"
  shows "\<exists>b self'. actualizar_precio i v self = Inr (b, self') \<and> invariante self'"
proof (cases "map_of (productos self) (str_strip (str_upper i))")
  case None
  then show ?thesis using assms by (auto simp: actualizar_precio_def)
next
  case (Some p)
  show ?thesis
  proof (cases "set_precio v p")
    case (Inl e)
    with set_precio_error [OF Inl] Some assms show ?thesis
      by (auto simp: actualizar_precio_def)
  next
    case (Inr p')
    from set_precio_campos [OF Inr] have n: "nombre p' = nombre p"
      and k: "id_producto p' = id_producto p" by simp_all
    have "actualizar_precio i v self =
            Inr (True, self\<lparr>productos := AList.update (str_strip (str_upper i)) p' (productos self)\<rparr>)"
      using Some Inr by (simp add: actualizar_precio_def)
    with invariante_reemplazar [OF assms Some n k] show ?thesis by blast
  qed
qed

lemma eliminar_producto_invariante:
  assumes "invariante self"
  shows "\<exists>b self'. eliminar_producto i self = Inr (b, self') \<and> invariante self'"
proof (cases "str_strip (str_upper i) \<in> ids_productos self")
  case False
  with assms show ?thesis by (auto simp: eliminar_producto_ausente)
next
  case True
  from eliminar_producto_presente [OF assms True]
  obtain self' where e: "eliminar_producto i self = Inr (True, self')" by blast
  from invariante_eliminar [OF assms e] e show ?thesis by blast
qed

lemma aplicar_invariante:
  assumes "invariante self"
  shows "\<exists>self'. aplicar op self = Inr self' \<and> invariante self'"
proof (cases op)
  case (Agregar p)
  with invariante_agregar [OF assms, of p] show ?thesis by simp
next
  case (Eliminar i)
  from eliminar_producto_invariante [OF assms, of i] Eliminar show ?thesis by auto
next
  case (ActualizarCantidad i v)
  from actualizar_cantidad_invariante [OF assms, of i v] ActualizarCantidad show ?thesis by auto
next
  case (ActualizarPrecio i v)
  from actualizar_precio_invariante [OF assms, of i v] ActualizarPrecio show ?thesis by auto
qed

lemma aplicar_todas_invariante:
  "invariante self \<Longrightarrow> \<exists>self'. aplicar_todas ops self = Inr self' \<and> invariante self'"
proof (induction ops arbitrary: self)
  case Nil
  then show ?case by simp
next
  case (Cons op ops)
  from aplicar_invariante [OF Cons.prems, of op]
  obtain s1 where s1: "aplicar op self = Inr s1" "invariante s1" by blast
  from Cons.IH [OF s1(2)] s1(1) show ?case by simp
qed

lemma id_laptop001: "str_strip (str_upper ''laptop001'') = ''LAPTOP001''"
  by code_simp

lemma id_mouse001: "str_strip (str_upper '' mouse001 '') = ''MOUSE001''"
  by code_simp

lemma operaciones_ejemplo_resultado:
  "aplicar_todas operaciones_ejemplo (inventario_vacio ''inventario.json'') = Inr tienda_final"
proof -
  have 1: "aplicar_todas [Agregar laptop, Agregar mouse] (inventario_vacio ''inventario.json'')
           = Inr tienda_ejemplo"
    using tienda_ejemplo_alcanzable by simp
  have 2: "aplicar (ActualizarCantidad ''laptop001'' (VInt 7)) tienda_ejemplo
           = Inr (tienda_ejemplo\<lparr>productos := [(''LAPTOP001'', laptop\<lparr>cantidad := 7\<rparr>), (''MOUSE001'', mouse)]\<rparr>)"
    by (simp add: actualizar_cantidad_def id_laptop001 tienda_ejemplo_def set_cantidad_def
          validar_cantidad_def Let_def)
  have 3: "aplicar (Eliminar '' mouse001 '')
             (tienda_ejemplo\<lparr>productos := [(''LAPTOP001'', laptop\<lparr>cantidad := 7\<rparr>), (''MOUSE001'', mouse)]\<rparr>)
           = Inr tienda_final"
    by (simp add: eliminar_producto_def id_mouse001 tienda_ejemplo_def tienda_final_def
          remover_de_indice_nombres_def nn_mouse Let_def AList.delete_eq)
       (auto simp: mouse_def)
  show ?thesis
    using 1 2 3 by (simp add: operaciones_ejemplo_def tienda_ejemplo_alcanzable)
qed

lemma invariante_consecuencias:
  assumes "invariante self"
  shows "ids_productos self = fst ` set (productos self)"
    and "distinct (map fst (productos self))"
    and "distinct (map fst (indice_nombres self))"
    and "\<forall>(i, p)\<in>set (productos self).
           id_producto p = i
           \<and> normalizar_nombre (nombre p) \<in> fst ` set (indice_nombres self)
           \<and> (\<forall>(k, l)\<in>set (indice_nombres self).
                 (i \<in> set l) = (k = normalizar_nombre (nombre p)))"
    and "\<forall>(k, l)\<in>set (indice_nombres self). l \<noteq> [] \<and> distinct l"
proof -
  note dp = invariante_D(1) [OF assms(1)] and di = invariante_D(2) [OF assms(1)]
    and im = invariante_D(3) [OF assms(1)]
  show "ids_productos self = fst ` set (productos self)"
    using assms unfolding invariante_def ids_sincronizados_def by blast
  show "distinct (map fst (productos self))" by (rule dp)
  show "distinct (map fst (indice_nombres self))" by (rule di)
  show "\<forall>(k, l)\<in>set (indice_nombres self). l \<noteq> [] \<and> distinct l"
  proof (clarify)
    fix k l assume "(k, l) \<in> set (indice_nombres self)"
    with di have "map_of (indice_nombres self) k = Some l" by simp
    from inv_map_I [OF im this] show "l \<noteq> [] \<and> distinct l" by blast
  qed
  show "\<forall>(i, p)\<in>set (productos self).
           id_producto p = i
           \<and> normalizar_nombre (nombre p) \<in> fst ` set (indice_nombres self)
           \<and> (\<forall>(k, l)\<in>set (indice_nombres self).
                 (i \<in> set l) = (k = normalizar_nombre (nombre p)))"
  proof (clarify)
    fix i p assume "(i, p) \<in> set (productos self)"
    with dp have Pi: "map_of (productos self) i = Some p" by simp
    from inv_map_P [OF im Pi] obtain l0 where l0: "id_producto p = i"
      "map_of (indice_nombres self) (normalizar_nombre (nombre p)) = Some l0" "i \<in> set l0"
      by blast
    from l0(2) have mem: "(normalizar_nombre (nombre p), l0) \<in> set (indice_nombres self)"
      by (rule map_of_SomeD)
    have "(i \<in> set l) = (k = normalizar_nombre (nombre p))"
      if kl: "(k, l) \<in> set (indice_nombres self)" for k l
    proof
      assume "i \<in> set l"
      from kl di have "map_of (indice_nombres self) k = Some l" by simp
      from inv_map_I [OF im this] \<open>i \<in> set l\<close> Pi show "k = normalizar_nombre (nombre p)"
        by auto
    next
      assume "k = normalizar_nombre (nombre p)"
      with kl di l0 have "l = l0" by simp
      with l0 show "i \<in> set l" by simp
    qed
    with l0(1) mem
    show "id_producto p = i
           \<and> normalizar_nombre (nombre p) \<in> fst ` set (indice_nombres self)
           \<and> (\<forall>(k, l)\<in>set (indice_nombres self).
                 (i \<in> set l) = (k = normalizar_nombre (nombre p)))"
      by force
  qed
qed

text \<open>
  C1. Whatever sequence of add, remove, quantity-update and price-update operations is
  applied to the empty store, no operation raises, and in the store reached the set of ids
  is the key set of \<open>productos\<close>, the buckets have distinct keys, the normalized
  name of every product is the key of a bucket, a bucket lists the id of a product exactly
  when its key is that normalized name, and no bucket is empty or lists an id twice.
\<close>

theorem invariante_tras_operaciones:
  "\<exists>self'. aplicar_todas ops (inventario_vacio archivo) = Inr self'
     \<and> ids_productos self' = fst ` set (productos self')
     \<and> distinct (map fst (indice_nombres self'))
     \<and> (\<forall>(i, p)\<in>set (productos self').
           normalizar_nombre (nombre p) \<in> fst ` set (indice_nombres self')
           \<and> (\<forall>(k, l)\<in>set (indice_nombres self').
                 (i \<in> set l) = (k = normalizar_nombre (nombre p))))
     \<and> (\<forall>(k, l)\<in>set (indice_nombres self'). l \<noteq> [] \<and> distinct l)"
proof -
  from aplicar_todas_invariante [OF invariante_vacio]
  obtain self' where s: "aplicar_todas ops (inventario_vacio archivo) = Inr self'"
    and i: "invariante self'" by blast
  from invariante_consecuencias(4) [OF i]
  have "\<forall>(i, p)\<in>set (productos self').
           normalizar_nombre (nombre p) \<in> fst ` set (indice_nombres self')
           \<and> (\<forall>(k, l)\<in>set (indice_nombres self').
                 (i \<in> set l) = (k = normalizar_nombre (nombre p)))"
    by fast
  with s invariante_consecuencias(1,3,5) [OF i] show ?thesis by blast
qed

theorem invariante_tras_operaciones_witness:
  "aplicar_todas operaciones_ejemplo (inventario_vacio ''inventario.json'') = Inr tienda_final
   \<and> productos tienda_final = [(''LAPTOP001'', laptop\<lparr>cantidad := 7\<rparr>)]
   \<and> indice_nombres tienda_final = [(''laptop dell xps 13'', [''LAPTOP001''])]
   \<and> ids_productos tienda_final = fst ` set (productos tienda_final)
   \<and> distinct (map fst (indice_nombres tienda_final))
   \<and> normalizar_nombre (nombre (laptop\<lparr>cantidad := 7\<rparr>))
       \<in> fst ` set (indice_nombres tienda_final)
   \<and> (''LAPTOP001'' \<in> set [''LAPTOP001''])
       = (''laptop dell xps 13'' = normalizar_nombre (nombre (laptop\<lparr>cantidad := 7\<rparr>)))
   \<and> [''LAPTOP001''] \<noteq> [] \<and> distinct [''LAPTOP001'']"
proof -
  have r: "aplicar_todas operaciones_ejemplo (inventario_vacio ''inventario.json'') = Inr tienda_final"
    by (rule operaciones_ejemplo_resultado)
  have a: "productos tienda_final = [(''LAPTOP001'', laptop\<lparr>cantidad := 7\<rparr>)]"
    and b: "indice_nombres tienda_final = [(''laptop dell xps 13'', [''LAPTOP001''])]"
    by (simp_all add: tienda_final_def)
  from invariante_tras_operaciones [of operaciones_ejemplo "''inventario.json''"]
  obtain s where s: "aplicar_todas operaciones_ejemplo (inventario_vacio ''inventario.json'') = Inr s"
    and p: "ids_productos s = fst ` set (productos s)
     \<and> distinct (map fst (indice_nombres s))
     \<and> (\<forall>(i, p)\<in>set (productos s).
           normalizar_nombre (nombre p) \<in> fst ` set (indice_nombres s)
           \<and> (\<forall>(k, l)\<in>set (indice_nombres s).
                 (i \<in> set l) = (k = normalizar_nombre (nombre p))))
     \<and> (\<forall>(k, l)\<in>set (indice_nombres s). l \<noteq> [] \<and> distinct l)"
    by blast
  from s r have "s = tienda_final" by simp
  with p have q1: "ids_productos tienda_final = fst ` set (productos tienda_final)"
    and q2: "distinct (map fst (indice_nombres tienda_final))"
    and q3: "\<forall>(i, p)\<in>set (productos tienda_final).
           normalizar_nombre (nombre p) \<in> fst ` set (indice_nombres tienda_final)
           \<and> (\<forall>(k, l)\<in>set (indice_nombres tienda_final).
                 (i \<in> set l) = (k = normalizar_nombre (nombre p)))"
    and q4: "\<forall>(k, l)\<in>set (indice_nombres tienda_final). l \<noteq> [] \<and> distinct l"
    by blast+
  have m: "(''LAPTOP001'', laptop\<lparr>cantidad := 7\<rparr>) \<in> set (productos tienda_final)"
    and n: "(''laptop dell xps 13'', [''LAPTOP001'']) \<in> set (indice_nombres tienda_final)"
    by (simp_all add: tienda_final_def)
  from q3 m have c1: "normalizar_nombre (nombre (laptop\<lparr>cantidad := 7\<rparr>))
          \<in> fst ` set (indice_nombres tienda_final)"
    and c2: "\<forall>(k, l)\<in>set (indice_nombres tienda_final).
        (''LAPTOP001'' \<in> set l) = (k = normalizar_nombre (nombre (laptop\<lparr>cantidad := 7\<rparr>)))"
    by fast+
  from c2 n have c3: "(''LAPTOP001'' \<in> set [''LAPTOP001''])
          = (''laptop dell xps 13'' = normalizar_nombre (nombre (laptop\<lparr>cantidad := 7\<rparr>)))"
    by fast
  from q4 n have c4: "[''LAPTOP001''] \<noteq> [] \<and> distinct [''LAPTOP001'']" by fast
  from r a b q1 q2 c1 c3 c4 show ?thesis by (intro conjI) blast+
qed

section \<open>Removing a product\<close>

lemma length_delete:
  "distinct (map fst al) \<Longrightarrow> k \<in> fst ` set al \<Longrightarrow> Suc (length (AList.delete k al)) = length al"
proof (induction al)
  case Nil
  then show ?case by simp
next
  case (Cons a al)
  show ?case
  proof (cases "fst a = k")
    case True
    with Cons.prems have "k \<notin> fst ` set al" by auto
    with True show ?thesis by simp
  next
    case False
    with Cons show ?thesis by auto
  qed
qed


lemma id_teclado001: "str_strip (str_upper ''teclado001'') = ''TECLADO001''"
  by code_simp

text \<open>
  C4. In a store whose dict has distinct keys, whose set of ids mirrors the dict and whose
  buckets list no id twice, removing an id that (upper-cased and trimmed) is present
  returns \<open>True\<close>: the count is one less, the id is no longer contained nor found
  by id, and the bucket of the removed product's name is that bucket without the id, or is
  deleted when nothing else is left in it. Removing an id that is absent returns
  \<open>False\<close> and the store is the same store.
\<close>

theorem eliminar_producto_contract:
  assumes "distinct (map fst (productos self))"
    and "ids_sincronizados self"
    and "\<forall>(k, l)\<in>set (indice_nombres self). distinct l"
  shows "(contains i self \<longrightarrow>
            (\<exists>self' p. eliminar_producto i self = Inr (True, self')
               \<and> Suc (len self') = len self
               \<and> \<not> contains i self'
               \<and> obtener_producto_por_id i self' = None
               \<and> obtener_producto_por_id i self = Some p
               \<and> map_of (indice_nombres self') (normalizar_nombre (nombre p))
                   = (case map_of (indice_nombres self) (normalizar_nombre (nombre p)) of
                        None \<Rightarrow> None
                      | Some l \<Rightarrow> if remove1 (str_strip (str_upper i)) l = [] then None
                                  else Some (remove1 (str_strip (str_upper i)) l))
               \<and> (\<forall>l. map_of (indice_nombres self') (normalizar_nombre (nombre p)) = Some l
                      \<longrightarrow> str_strip (str_upper i) \<notin> set l)))
       \<and> (\<not> contains i self \<longrightarrow> eliminar_producto i self = Inr (False, self))"
proof (cases "str_strip (str_upper i) \<in> ids_productos self")
  case False
  then show ?thesis by (simp add: contains_def eliminar_producto_ausente)
next
  case True
  let ?i = "str_strip (str_upper i)"
  from True assms(2) have "?i \<in> fst ` set (productos self)"
    unfolding ids_sincronizados_def by simp
  then obtain p where mem: "(?i, p) \<in> set (productos self)" by force
  with assms(1) have p: "map_of (productos self) ?i = Some p" by simp
  from mem assms(2) have ip: "id_producto p = ?i"
    unfolding ids_sincronizados_def by fast
  let ?nk = "normalizar_nombre (nombre p)"
  let ?s0 = "self\<lparr>productos := AList.delete ?i (productos self),
                    ids_productos := ids_productos self - {?i}\<rparr>"
  let ?s' = "remover_de_indice_nombres p ?s0"
  have e: "eliminar_producto i self = Inr (True, ?s')"
    using True p by (simp add: eliminar_producto_def Let_def)
  have campos: "productos ?s' = AList.delete ?i (productos self)"
    "ids_productos ?s' = ids_productos self - {?i}"
    by (simp_all add: remover_de_indice_nombres_eq split: option.split)
  have 1: "Suc (len ?s') = len self"
    unfolding len_def campos using length_delete [OF assms(1), of ?i] mem by force
  have 2: "\<not> contains i ?s'" unfolding contains_def campos by simp
  have 3: "obtener_producto_por_id i ?s' = None"
    unfolding obtener_producto_por_id_def campos by (simp add: delete_conv')
  have 4: "obtener_producto_por_id i self = Some p"
    using p by (simp add: obtener_producto_por_id_def)
  have 5: "map_of (indice_nombres ?s') ?nk
             = (case map_of (indice_nombres self) ?nk of
                  None \<Rightarrow> None
                | Some l \<Rightarrow> if remove1 ?i l = [] then None else Some (remove1 ?i l))"
    by (simp add: remover_de_indice_nombres_eq ip delete_conv' update_conv' split: option.split)
  have 6: "\<forall>l. map_of (indice_nombres ?s') ?nk = Some l \<longrightarrow> ?i \<notin> set l"
  proof (intro allI impI)
    fix l assume l: "map_of (indice_nombres ?s') ?nk = Some l"
    show "?i \<notin> set l"
    proof (cases "map_of (indice_nombres self) ?nk")
      case None
      with l 5 show ?thesis by simp
    next
      case (Some l0)
      then have "(?nk, l0) \<in> set (indice_nombres self)" by (rule map_of_SomeD)
      with assms(3) have "distinct l0" by fast
      moreover from l 5 Some have "l = remove1 ?i l0" by (simp split: if_splits)
      ultimately show ?thesis by simp
    qed
  qed
  from True e 1 2 3 4 5 6 show ?thesis unfolding contains_def by blast
qed

lemma cubos_tienda_ejemplo: "\<forall>(k, l)\<in>set (indice_nombres tienda_ejemplo). distinct l"
  by (simp add: tienda_ejemplo_def)

lemma ids_sincronizados_tienda_ejemplo: "ids_sincronizados tienda_ejemplo"
  by (simp add: ids_sincronizados_def tienda_ejemplo_def laptop_def mouse_def)

lemma distinct_tienda_ejemplo: "distinct (map fst (productos tienda_ejemplo))"
  by (simp add: tienda_ejemplo_def)

theorem eliminar_producto_contract_witness:
  "distinct (map fst (productos tienda_ejemplo))
   \<and> ids_sincronizados tienda_ejemplo
   \<and> indice_nombres tienda_ejemplo
       = [(''laptop dell xps 13'', [''LAPTOP001'']), (''mouse logitech mx master 3'', [''MOUSE001''])]
   \<and> contains '' mouse001 '' tienda_ejemplo
   \<and> (\<exists>self' p. eliminar_producto '' mouse001 '' tienda_ejemplo = Inr (True, self')
         \<and> Suc (len self') = len tienda_ejemplo
         \<and> \<not> contains '' mouse001 '' self'
         \<and> obtener_producto_por_id '' mouse001 '' self' = None
         \<and> obtener_producto_por_id '' mouse001 '' tienda_ejemplo = Some p
         \<and> map_of (indice_nombres self') (normalizar_nombre (nombre p))
             = (case map_of (indice_nombres tienda_ejemplo) (normalizar_nombre (nombre p)) of
                  None \<Rightarrow> None
                | Some l \<Rightarrow> if remove1 (str_strip (str_upper '' mouse001 '')) l = [] then None
                            else Some (remove1 (str_strip (str_upper '' mouse001 '')) l))
         \<and> (\<forall>l. map_of (indice_nombres self') (normalizar_nombre (nombre p)) = Some l
                \<longrightarrow> str_strip (str_upper '' mouse001 '') \<notin> set l))
   \<and> \<not> contains ''teclado001'' tienda_ejemplo
   \<and> eliminar_producto ''teclado001'' tienda_ejemplo = Inr (False, tienda_ejemplo)"
proof -
  have a: "contains '' mouse001 '' tienda_ejemplo"
    by (simp add: contains_def id_mouse001 tienda_ejemplo_def)
  have b: "\<not> contains ''teclado001'' tienda_ejemplo"
    by (simp add: contains_def id_teclado001 tienda_ejemplo_def)
  have c: "indice_nombres tienda_ejemplo
       = [(''laptop dell xps 13'', [''LAPTOP001'']), (''mouse logitech mx master 3'', [''MOUSE001''])]"
    by (simp add: tienda_ejemplo_def)
  from eliminar_producto_contract [OF distinct_tienda_ejemplo ids_sincronizados_tienda_ejemplo
      cubos_tienda_ejemplo, of "'' mouse001 ''"]
    eliminar_producto_contract [OF distinct_tienda_ejemplo ids_sincronizados_tienda_ejemplo
      cubos_tienda_ejemplo, of "''teclado001''"]
    a b c distinct_tienda_ejemplo ids_sincronizados_tienda_ejemplo
  show ?thesis by blast
qed

lemma eliminar_ejemplo:
  "eliminar_producto '' mouse001 '' tienda_ejemplo
   = Inr (True, \<lparr>productos = [(''LAPTOP001'', laptop)], ids_productos = {''LAPTOP001''},
                  indice_nombres = [(''laptop dell xps 13'', [''LAPTOP001''])],
                  archivo_inventario = ''inventario.json''\<rparr>)"
  by (simp add: eliminar_producto_def id_mouse001 tienda_ejemplo_def
        remover_de_indice_nombres_def nn_mouse Let_def AList.delete_eq)
     (auto simp: mouse_def)

section \<open>Searching by name\<close>










section \<open>Searching with a blank query\<close>



lemma of_char_char_of_nat: "n < 256 \<Longrightarrow> (of_char (char_of n) :: nat) = n"
  by simp

lemma es_espacio_char_lower: "es_espacio (char_lower c) = es_espacio c"
  by (auto simp: es_espacio_def char_lower_def es_mayuscula_def Let_def)

lemma es_espacio_char_upper: "es_espacio (char_upper c) = es_espacio c"
  by (auto simp: es_espacio_def char_upper_def es_minuscula_def Let_def)









section \<open>Loading records with the same id\<close>

lemma cargar_productos_append:
  "cargar_productos t (xs @ ys) self =
     (case cargar_productos t xs self of
        (True, s1) \<Rightarrow> cargar_productos t ys s1
      | (False, s1) \<Rightarrow> (False, s1))"
  by (induction xs arbitrary: self) (auto split: sum.splits)

lemma from_dict_VDict: "from_dict t r = Inr p \<Longrightarrow> \<exists>kv. r = VDict kv"
  by (cases r) (simp_all add: from_dict_def subscript_def)

lemma cargar_productos_dicts:
  "\<forall>r\<in>set rs. \<exists>kv. r = VDict kv \<Longrightarrow> fst (cargar_productos t rs self) = True"
proof (induction rs arbitrary: self)
  case Nil
  then show ?case by simp
next
  case (Cons r rs)
  then obtain kv where "r = VDict kv" by auto
  with Cons show ?case by (auto simp: dict_get_def split: sum.splits option.splits)
qed

lemma actualizar_indice_nombres_mono:
  assumes "map_of (indice_nombres self) k = Some l" "i \<in> set l"
  shows "\<exists>l'. map_of (indice_nombres (actualizar_indice_nombres p self)) k = Some l' \<and> i \<in> set l'"
  using assms
  by (auto simp: actualizar_indice_nombres_eq update_conv' split: option.splits)

lemma actualizar_indice_nombres_contiene:
  "\<exists>l. map_of (indice_nombres (actualizar_indice_nombres p self)) (normalizar_nombre (nombre p)) = Some l
       \<and> id_producto p \<in> set l"
  by (auto simp: actualizar_indice_nombres_eq update_conv' split: option.splits)

lemma actualizar_indice_nombres_otros:
  "productos (actualizar_indice_nombres p self) = productos self"
  "ids_productos (actualizar_indice_nombres p self) = ids_productos self"
  "archivo_inventario (actualizar_indice_nombres p self) = archivo_inventario self"
  by (auto simp: actualizar_indice_nombres_eq split: option.splits)

lemma cargar_productos_mono:
  assumes "map_of (indice_nombres self) k = Some l" "i \<in> set l"
  shows "\<exists>l'. map_of (indice_nombres (snd (cargar_productos t rs self))) k = Some l' \<and> i \<in> set l'"
  using assms
proof (induction rs arbitrary: self l)
  case Nil
  then show ?case by simp
next
  case (Cons r rs)
  show ?case
  proof (cases "from_dict t r")
    case (Inl e)
    with Cons show ?thesis by (auto split: sum.splits)
  next
    case (Inr p)
    let ?s = "self\<lparr>productos := AList.update (id_producto p) p (productos self),
                    ids_productos := insert (id_producto p) (ids_productos self)\<rparr>"
    from Cons.prems have "map_of (indice_nombres ?s) k = Some l" by simp
    from actualizar_indice_nombres_mono [OF this Cons.prems(2), of p]
    obtain l' where "map_of (indice_nombres (actualizar_indice_nombres p ?s)) k = Some l'" "i \<in> set l'"
      by blast
    from Cons.IH [OF this] Inr show ?thesis by simp
  qed
qed

lemma cargar_productos_conserva:
  assumes "\<forall>r\<in>set rs. \<forall>p. from_dict t r = Inr p \<longrightarrow> id_producto p \<noteq> j"
  shows "map_of (productos (snd (cargar_productos t rs self))) j = map_of (productos self) j"
  using assms
proof (induction rs arbitrary: self)
  case Nil
  then show ?case by simp
next
  case (Cons r rs)
  show ?case
  proof (cases "from_dict t r")
    case (Inl e)
    with Cons show ?thesis by (auto split: sum.splits)
  next
    case (Inr p)
    with Cons.prems have "id_producto p \<noteq> j" by simp
    with Cons Inr show ?thesis
      by (simp add: actualizar_indice_nombres_otros update_conv')
  qed
qed

lemma cargar_productos_medio:
  assumes "\<forall>x\<in>set xs. \<exists>kv. x = VDict kv" "from_dict t r = Inr p"
  shows "cargar_productos t (xs @ r # ys) self =
           cargar_productos t ys
             (actualizar_indice_nombres p
                ((snd (cargar_productos t xs self))
                   \<lparr>productos := AList.update (id_producto p) p
                                   (productos (snd (cargar_productos t xs self))),
                    ids_productos := insert (id_producto p)
                                       (ids_productos (snd (cargar_productos t xs self)))\<rparr>))"
proof -
  obtain b sA where r: "cargar_productos t xs self = (b, sA)" by (cases "cargar_productos t xs self")
  with cargar_productos_dicts [OF assms(1), of t self] have b: "b = True" by simp
  show ?thesis
    unfolding cargar_productos_append r b using assms(2) by simp
qed

text \<open>
  C10. Loading a file that parses to an object whose \<open>productos\<close> list holds two
  records that \<open>from_dict\<close> accepts with the same normalized id, among records that
  are all objects, signals no duplicate: the load returns \<open>True\<close>; when no later
  accepted record has that id, the product stored under the id is the one of the later
  record; and the id is listed in the bucket of the earlier record's name as well as in
  that of the later record's name, so it stays in a stale bucket when the two normalized
  names differ.
\<close>

theorem cargar_ids_duplicados:
  assumes "d (archivo_inventario self) = Some (Archivo (Documento (VDict kv)))"
    and "map_of kv ''productos'' = Some (VList (pre @ r1 # mid @ r2 # post))"
    and "\<forall>r\<in>set (pre @ mid @ post). \<exists>e. r = VDict e"
    and "from_dict ahora r1 = Inr p1"
    and "from_dict ahora r2 = Inr p2"
    and "id_producto p1 = id_producto p2"
    and "\<forall>r\<in>set post. \<forall>p. from_dict ahora r = Inr p \<longrightarrow> id_producto p \<noteq> id_producto p2"
  shows "\<exists>self'. cargar_inventario ahora d self = (True, self')
           \<and> map_of (productos self') (id_producto p2) = Some p2
           \<and> (\<exists>l. map_of (indice_nombres self') (normalizar_nombre (nombre p1)) = Some l
                  \<and> id_producto p1 \<in> set l)
           \<and> (\<exists>l. map_of (indice_nombres self') (normalizar_nombre (nombre p2)) = Some l
                  \<and> id_producto p2 \<in> set l)"
proof -
  let ?limpio = "self\<lparr>productos := [], ids_productos := {}, indice_nombres := []\<rparr>"
  let ?rs = "pre @ r1 # mid @ r2 # post"
  let ?ins = "\<lambda>p s. actualizar_indice_nombres p
                (s\<lparr>productos := AList.update (id_producto p) p (productos s),
                   ids_productos := insert (id_producto p) (ids_productos s)\<rparr>)"
  let ?sA = "snd (cargar_productos ahora pre ?limpio)"
  let ?s1 = "?ins p1 ?sA"
  let ?sB = "snd (cargar_productos ahora mid ?s1)"
  let ?s2 = "?ins p2 ?sB"
  let ?sC = "cargar_productos ahora post ?s2"
  from assms(3) have dpre: "\<forall>x\<in>set pre. \<exists>kv. x = VDict kv"
    and dmid: "\<forall>x\<in>set mid. \<exists>kv. x = VDict kv"
    and dpost: "\<forall>x\<in>set post. \<exists>kv. x = VDict kv" by auto
  have c: "cargar_inventario ahora d self = cargar_productos ahora ?rs ?limpio"
    using assms(1,2) by (simp add: cargar_inventario_def dict_get_def iterar_def)
  have e: "cargar_productos ahora ?rs ?limpio = ?sC"
    unfolding cargar_productos_medio [OF dpre assms(4)]
      cargar_productos_medio [OF dmid assms(5)] ..
  from cargar_productos_dicts [OF dpost, of ahora ?s2]
  have ok: "fst ?sC = True" .
  have "map_of (productos ?s2) (id_producto p2) = Some p2"
    by (simp add: actualizar_indice_nombres_otros update_conv')
  with cargar_productos_conserva [OF assms(7), of ?s2]
  have P: "map_of (productos (snd ?sC)) (id_producto p2) = Some p2" by simp
  from actualizar_indice_nombres_contiene [of p1]
  obtain l1 where "map_of (indice_nombres ?s1) (normalizar_nombre (nombre p1)) = Some l1"
    "id_producto p1 \<in> set l1" by blast
  from cargar_productos_mono [OF this, of ahora mid]
  obtain l1' where l1': "map_of (indice_nombres ?sB) (normalizar_nombre (nombre p1)) = Some l1'"
    "id_producto p1 \<in> set l1'" by blast
  then have "map_of (indice_nombres (?sB\<lparr>productos := AList.update (id_producto p2) p2 (productos ?sB),
                   ids_productos := insert (id_producto p2) (ids_productos ?sB)\<rparr>))
               (normalizar_nombre (nombre p1)) = Some l1'" by simp
  from actualizar_indice_nombres_mono [OF this l1'(2), of p2]
  obtain l1'' where "map_of (indice_nombres ?s2) (normalizar_nombre (nombre p1)) = Some l1''"
    "id_producto p1 \<in> set l1''" by blast
  from cargar_productos_mono [OF this, of ahora post]
  have I1: "\<exists>l. map_of (indice_nombres (snd ?sC)) (normalizar_nombre (nombre p1)) = Some l
                  \<and> id_producto p1 \<in> set l" .
  from actualizar_indice_nombres_contiene [of p2]
  obtain l2 where "map_of (indice_nombres ?s2) (normalizar_nombre (nombre p2)) = Some l2"
    "id_producto p2 \<in> set l2" by blast
  from cargar_productos_mono [OF this, of ahora post]
  have I2: "\<exists>l. map_of (indice_nombres (snd ?sC)) (normalizar_nombre (nombre p2)) = Some l
                  \<and> id_producto p2 \<in> set l" .
  have "cargar_inventario ahora d self = (fst ?sC, snd ?sC)"
    unfolding c e by (rule prod.collapse [symmetric])
  then have "cargar_inventario ahora d self = (True, snd ?sC)"
    unfolding ok .
  with P I1 I2 show ?thesis by blast
qed

lemma cadenas_registros:
  "str_strip ''a1'' = ''a1''" "str_upper ''a1'' = ''A1''"
  "str_strip '' A1 '' = ''A1''" "str_upper ''A1'' = ''A1''"
  "str_strip ''tornillo'' = ''tornillo''" "str_title ''tornillo'' = ''Tornillo''"
  "str_strip ''tuerca'' = ''tuerca''" "str_title ''tuerca'' = ''Tuerca''"
  "normalizar_nombre ''Tornillo'' = ''tornillo''" "normalizar_nombre ''Tuerca'' = ''tuerca''"
  by code_simp+

lemma from_dict_registro_a: "from_dict ''2024-05-02 08:00:00'' registro_a = Inr producto_a"
  by (simp add: from_dict_def registro_a_def producto_a_def subscript_def dict_get_def
        Producto_def validar_id_def validar_nombre_def validar_cantidad_def validar_precio_def
        cadenas_registros)

lemma from_dict_registro_b: "from_dict ''2024-05-02 08:00:00'' registro_b = Inr producto_b"
  by (simp add: from_dict_def registro_b_def producto_b_def subscript_def dict_get_def
        Producto_def validar_id_def validar_nombre_def validar_cantidad_def validar_precio_def
        cadenas_registros)

theorem cargar_ids_duplicados_witness:
  "disco_duplicados (archivo_inventario tienda_ejemplo)
     = Some (Archivo (Documento (VDict [(''productos'', VList [registro_a, registro_b]),
                                        (''fecha_guardado'', VStr ''2024-01-02 00:00:00''),
                                        (''version'', VStr ''1.0'')])))
   \<and> from_dict ''2024-05-02 08:00:00'' registro_a = Inr producto_a
   \<and> from_dict ''2024-05-02 08:00:00'' registro_b = Inr producto_b
   \<and> id_producto producto_a = id_producto producto_b
   \<and> normalizar_nombre (nombre producto_a) \<noteq> normalizar_nombre (nombre producto_b)
   \<and> (\<exists>self'. cargar_inventario ''2024-05-02 08:00:00'' disco_duplicados tienda_ejemplo
                   = (True, self')
         \<and> map_of (productos self') (id_producto producto_b) = Some producto_b
         \<and> (\<exists>l. map_of (indice_nombres self') (normalizar_nombre (nombre producto_a)) = Some l
                \<and> id_producto producto_a \<in> set l)
         \<and> (\<exists>l. map_of (indice_nombres self') (normalizar_nombre (nombre producto_b)) = Some l
                \<and> id_producto producto_b \<in> set l))"
proof -
  have d: "disco_duplicados (archivo_inventario tienda_ejemplo)
     = Some (Archivo (Documento (VDict [(''productos'', VList ([] @ registro_a # [] @ registro_b # [])),
                                        (''fecha_guardado'', VStr ''2024-01-02 00:00:00''),
                                        (''version'', VStr ''1.0'')])))"
    by (simp add: disco_duplicados_def tienda_ejemplo_def)
  have m: "map_of [(''productos'', VList ([] @ registro_a # [] @ registro_b # [])),
                   (''fecha_guardado'', VStr ''2024-01-02 00:00:00''),
                   (''version'', VStr ''1.0'')] ''productos''
           = Some (VList ([] @ registro_a # [] @ registro_b # []))"
    by simp
  have v: "\<forall>r\<in>set ([] @ [] @ ([] :: valor list)). \<exists>e. r = VDict e" by simp
  have i: "id_producto producto_a = id_producto producto_b"
    by (simp add: producto_a_def producto_b_def)
  have n: "normalizar_nombre (nombre producto_a) \<noteq> normalizar_nombre (nombre producto_b)"
    by (simp add: producto_a_def producto_b_def cadenas_registros)
  have p: "\<forall>r\<in>set ([] :: valor list). \<forall>p. from_dict ''2024-05-02 08:00:00'' r = Inr p
             \<longrightarrow> id_producto p \<noteq> id_producto producto_b" by simp
  from cargar_ids_duplicados [where d = disco_duplicados and self = tienda_ejemplo
      and pre = "[]" and mid = "[]" and post = "[]" and ?r1.0 = registro_a and ?r2.0 = registro_b,
      OF d m v from_dict_registro_a from_dict_registro_b i p]
    d from_dict_registro_a from_dict_registro_b i n
  show ?thesis by simp
qed

lemma duplicados_resultado:
  "cargar_inventario ''2024-05-02 08:00:00'' disco_duplicados tienda_ejemplo
   = (True, \<lparr>productos = [(''A1'', producto_b)], ids_productos = {''A1''},
             indice_nombres = [(''tornillo'', [''A1'']), (''tuerca'', [''A1''])],
             archivo_inventario = ''inventario.json''\<rparr>)"
  by (simp add: cargar_inventario_def disco_duplicados_def tienda_ejemplo_def dict_get_def
        iterar_def from_dict_registro_a from_dict_registro_b actualizar_indice_nombres_def
        Let_def)
     (simp add: producto_a_def producto_b_def cadenas_registros)

section \<open>Saving and loading again\<close>









section \<open>Valid products\<close>

text \<open>
  What the constructor returns is a valid product, and the setters keep a product valid:
  stripping, upper-casing and title-casing are idempotent, and the case mappings turn no
  character into a space or a space into another character.
\<close>

lemma str_strip_extremos:
  assumes "str_strip s \<noteq> []"
  shows "\<not> es_espacio (hd (str_strip s)) \<and> \<not> es_espacio (last (str_strip s))"
proof -
  let ?u = "dropWhile es_espacio s"
  let ?w = "dropWhile es_espacio (rev ?u)"
  from assms have w: "?w \<noteq> []" by (simp add: str_strip_def)
  have u: "?u \<noteq> []"
  proof
    assume e: "?u = []"
    have "?w = []" unfolding e by simp
    with w show False by simp
  qed
  from w have "\<not> es_espacio (hd ?w)" by (rule hd_dropWhile)
  then have 1: "\<not> es_espacio (last (str_strip s))"
    by (simp add: str_strip_def last_rev)
  have "rev ?u = takeWhile es_espacio (rev ?u) @ ?w" by simp
  then have "last (rev ?u) = last ?w" using w by (metis last_appendR)
  then have "last ?w = hd ?u" by (simp add: last_rev)
  moreover from u have "\<not> es_espacio (hd ?u)" by (rule hd_dropWhile)
  ultimately have 2: "\<not> es_espacio (hd (str_strip s))"
    by (simp add: str_strip_def hd_rev)
  from 1 2 show ?thesis by simp
qed

lemma str_strip_fijo:
  assumes "s = [] \<or> (\<not> es_espacio (hd s) \<and> \<not> es_espacio (last s))"
  shows "str_strip s = s"
proof (cases "s = []")
  case True
  then show ?thesis by (simp add: str_strip_def)
next
  case False
  with assms have h: "\<not> es_espacio (hd s)" and l: "\<not> es_espacio (last s)" by auto
  from h False have 1: "dropWhile es_espacio s = s" by (cases s) auto
  from l False have 2: "dropWhile es_espacio (rev s) = rev s"
    by (cases "rev s") (auto simp: last_rev [symmetric] hd_rev)
  show ?thesis by (simp add: str_strip_def 1 2)
qed

lemma str_strip_idem: "str_strip (str_strip s) = str_strip s"
  using str_strip_extremos [of s] by (intro str_strip_fijo) blast

lemma str_strip_map:
  assumes "\<And>c. es_espacio (f c) = es_espacio c"
  shows "str_strip (map f s) = map f (str_strip s)"
proof -
  have "es_espacio \<circ> f = es_espacio" using assms by (simp add: fun_eq_iff)
  then show ?thesis by (simp add: str_strip_def dropWhile_map rev_map)
qed

lemma char_upper_idem: "char_upper (char_upper c) = char_upper c"
  by (auto simp: char_upper_def es_minuscula_def Let_def)

lemma char_lower_idem: "char_lower (char_lower c) = char_lower c"
  by (auto simp: char_lower_def es_mayuscula_def Let_def)

lemma es_letra_char_upper: "es_letra (char_upper c) = es_letra c"
  by (auto simp: es_letra_def char_upper_def es_minuscula_def es_mayuscula_def Let_def)

lemma es_letra_char_lower: "es_letra (char_lower c) = es_letra c"
  by (auto simp: es_letra_def char_lower_def es_minuscula_def es_mayuscula_def Let_def)

lemma title_desde_vacio: "(title_desde b s = []) = (s = [])"
  by (cases s) simp_all

lemma title_desde_hd:
  "s \<noteq> [] \<Longrightarrow> es_espacio (hd (title_desde b s)) = es_espacio (hd s)"
  by (cases s) (simp_all add: es_espacio_char_lower es_espacio_char_upper)

lemma title_desde_last:
  "s \<noteq> [] \<Longrightarrow> es_espacio (last (title_desde b s)) = es_espacio (last s)"
proof (induction s arbitrary: b)
  case Nil
  then show ?case by simp
next
  case (Cons c cs)
  show ?case
  proof (cases "cs = []")
    case True
    then show ?thesis by (simp add: es_espacio_char_lower es_espacio_char_upper)
  next
    case False
    with Cons.IH [OF False, of "es_letra c"] show ?thesis
      by (simp add: title_desde_vacio)
  qed
qed

lemma title_desde_idem: "title_desde b (title_desde b s) = title_desde b s"
  by (induction s arbitrary: b)
     (simp_all add: char_upper_idem char_lower_idem es_letra_char_upper es_letra_char_lower)

lemma str_strip_title:
  assumes "str_strip s \<noteq> []"
  shows "str_strip (str_title (str_strip s)) = str_title (str_strip s)"
proof (rule str_strip_fijo, rule disjI2)
  from str_strip_extremos [OF assms] assms
  show "\<not> es_espacio (hd (str_title (str_strip s)))
        \<and> \<not> es_espacio (last (str_title (str_strip s)))"
    by (simp add: str_title_def title_desde_hd title_desde_last)
qed

lemma validar_id_valido:
  assumes "validar_id v = Inr i"
  shows "str_strip i \<noteq> [] \<and> str_upper (str_strip i) = i"
proof -
  from assms obtain s where s: "str_strip s \<noteq> []" "i = str_upper (str_strip s)"
    by (auto simp: validar_id_def split: valor.splits if_splits)
  have "str_strip i = i"
    unfolding s(2) str_upper_def
    by (simp add: str_strip_map [of char_upper, OF es_espacio_char_upper] str_strip_idem)
  moreover have "i \<noteq> []" using s by (simp add: str_upper_def)
  moreover have "str_upper i = i" unfolding s(2) by (simp add: str_upper_def char_upper_idem)
  ultimately show ?thesis by simp
qed

lemma validar_nombre_valido:
  assumes "validar_nombre v = Inr n"
  shows "str_strip n \<noteq> [] \<and> str_title (str_strip n) = n"
proof -
  from assms obtain s where s: "str_strip s \<noteq> []" "n = str_title (str_strip s)"
    by (auto simp: validar_nombre_def split: valor.splits if_splits)
  have "str_strip n = n" unfolding s(2) by (rule str_strip_title [OF s(1)])
  moreover have "n \<noteq> []" using s by (simp add: str_title_def title_desde_vacio)
  moreover have "str_title n = n" unfolding s(2) by (simp add: str_title_def title_desde_idem)
  ultimately show ?thesis by simp
qed

lemma validar_cantidad_valido: "validar_cantidad v = Inr c \<Longrightarrow> 0 \<le> c"
  by (auto simp: validar_cantidad_def split: valor.splits if_splits)

lemma validar_precio_valido: "validar_precio v = Inr r \<Longrightarrow> 0 \<le> r"
  by (auto simp: validar_precio_def split: valor.splits if_splits)

lemma Producto_valido:
  assumes "Producto t i n c pr = Inr p"
  shows "producto_valido p"
proof -
  from assms obtain i' n' c' pr' where v: "validar_id i = Inr i'" "validar_nombre n = Inr n'"
    "validar_cantidad c = Inr c'" "validar_precio pr = Inr pr'"
    and p: "p = \<lparr>id_producto = i', nombre = n', cantidad = c', precio = pr',
                  fecha_creacion = VStr t\<rparr>"
    by (auto simp: Producto_def split: sum.splits)
  from validar_id_valido [OF v(1)] validar_nombre_valido [OF v(2)]
    validar_cantidad_valido [OF v(3)] validar_precio_valido [OF v(4)]
  show ?thesis unfolding p producto_valido_def by simp
qed

lemma from_dict_valido:
  assumes "from_dict t data = Inr p"
  shows "producto_valido p"
proof -
  from assms obtain i n c pr q f where "Producto t i n c pr = Inr q" "p = q\<lparr>fecha_creacion := f\<rparr>"
    by (auto simp: from_dict_def split: sum.splits)
  with Producto_valido [of t i n c pr q] show ?thesis
    by (simp add: producto_valido_def)
qed

lemma set_cantidad_valido:
  "producto_valido p \<Longrightarrow> set_cantidad v p = Inr p' \<Longrightarrow> producto_valido p'"
  by (auto simp: set_cantidad_def producto_valido_def split: sum.splits
        dest: validar_cantidad_valido)

lemma set_precio_valido:
  "producto_valido p \<Longrightarrow> set_precio v p = Inr p' \<Longrightarrow> producto_valido p'"
  by (auto simp: set_precio_def producto_valido_def split: sum.splits
        dest: validar_precio_valido)

end
